theory Spec2Isabelle
  imports Main "HOL-Library.Word"
begin

section \<open>Entity orchestrator (core-ecs.hpp)\<close>

text \<open>
  \<^verbatim>\<open>using entity = uint64_t; constexpr entity kInvalidEntity = 0;\<close>
  An entity is an unsigned 64-bit value, so \<open>+\<close> wraps around at \<open>2 ^ 64\<close>.
\<close>

type_synonym entity = "64 word"

definition kInvalidEntity :: entity where
  "kInvalidEntity = 0"

text \<open>
  A \<^verbatim>\<open>base_system *\<close> is an address; address 0 is \<^verbatim>\<open>nullptr\<close>.
\<close>

type_synonym address = nat

definition nullptr :: address where
  "nullptr = 0"

text \<open>
  \<^verbatim>\<open>poly_typeid\<close> and \<^verbatim>\<open>poly_hash_value\<close> are declared in typeid.hpp, which is not part
  of the sources at hand; they are only used as keys of the two hash maps, so the type of
  identifiers is the parameter \<open>'tid\<close>. The mutex \<^verbatim>\<open>createMutex\<close> has no sequential
  content and is not a field of the record.
\<close>

record 'tid entity_orchestrator =
  system_type_map :: "'tid \<rightharpoonup> 'tid"
  systems :: "'tid \<rightharpoonup> address"
  entity_counter :: entity

text \<open>The state after the implicit constructor: both maps empty, \<^verbatim>\<open>entity_counter{ 0 }\<close>.\<close>

definition orchestrator_init :: "'tid entity_orchestrator" where
  "orchestrator_init =
     \<lparr>system_type_map = Map.empty, systems = Map.empty, entity_counter = 0\<rparr>"

text \<open>\<^verbatim>\<open>system_type_map[def_type] = system_type;\<close>\<close>

definition register_system_for_type ::
  "'tid \<Rightarrow> 'tid \<Rightarrow> 'tid entity_orchestrator \<Rightarrow> 'tid entity_orchestrator" where
  "register_system_for_type system_type def_type orch =
     orch\<lparr>system_type_map := (system_type_map orch)(def_type \<mapsto> system_type)\<rparr>"

text \<open>\<^verbatim>\<open>const entity e = ++entity_counter; return e;\<close>\<close>

definition create_entity :: "'tid entity_orchestrator \<Rightarrow> entity \<times> 'tid entity_orchestrator" where
  "create_entity orch =
     (let e = entity_counter orch + 1 in (e, orch\<lparr>entity_counter := e\<rparr>))"

text \<open>
  \<^verbatim>\<open>if (!system) return;
  auto itr = systems.find(system_type);
  if (itr == systems.end()) systems.emplace(system_type, system);\<close>
\<close>

definition add_system ::
  "'tid \<Rightarrow> address \<Rightarrow> 'tid entity_orchestrator \<Rightarrow> 'tid entity_orchestrator" where
  "add_system system_type system orch =
     (if system = nullptr then orch
      else (case systems orch system_type of
              None \<Rightarrow> orch\<lparr>systems := (systems orch)(system_type \<mapsto> system)\<rparr>
            | Some _ \<Rightarrow> orch))"

text \<open>
  The non-template public member functions, as calls a client (or the constructor of a
  system, which is handed the orchestrator) can make.
\<close>

datatype 'tid api_call =
  CreateEntity
| AddSystem 'tid address
| RegisterSystemForType 'tid 'tid

fun api_step :: "'tid api_call \<Rightarrow> 'tid entity_orchestrator \<Rightarrow> 'tid entity_orchestrator" where
  "api_step CreateEntity orch = snd (create_entity orch)"
| "api_step (AddSystem system_type system) orch = add_system system_type system orch"
| "api_step (RegisterSystemForType system_type def_type) orch =
     register_system_for_type system_type def_type orch"

text \<open>
  The values returned by the \<^verbatim>\<open>create_entity()\<close> calls of a sequence of calls, in call
  order. Under \<^verbatim>\<open>createMutex\<close> the calls of all threads are totally ordered, and the calls
  of one thread are a subsequence of that order.
\<close>

fun returned_entities :: "'tid api_call list \<Rightarrow> 'tid entity_orchestrator \<Rightarrow> entity list" where
  "returned_entities [] orch = []"
| "returned_entities (CreateEntity # cs) orch =
     (let (e, orch') = create_entity orch in e # returned_entities cs orch')"
| "returned_entities (c # cs) orch = returned_entities cs (api_step c orch)"

text \<open>
  \<^verbatim>\<open>T * ptr = new T(std::forward<Args>(args)...);
  add_system(get_typeid<T>(), ptr);
  return ptr;\<close>

  The free store is the list of the objects allocated so far, each with the identifier of
  its system kind; the object at address \<open>a \<ge> 1\<close> is element \<open>a - 1\<close>. \<^verbatim>\<open>new\<close> returns
  the address of a fresh object and never \<^verbatim>\<open>nullptr\<close>. The constructors of the concrete
  systems are not part of the sources at hand: \<open>ctor\<close> gives, for the address of the object
  under construction, the calls the constructor makes on the orchestrator.
\<close>

type_synonym 'tid free_store = "'tid list"

definition new_object :: "'tid \<Rightarrow> 'tid free_store \<Rightarrow> address \<times> 'tid free_store" where
  "new_object T store = (Suc (length store), store @ [T])"

definition allocated :: "'tid free_store \<Rightarrow> address \<Rightarrow> bool" where
  "allocated store a \<longleftrightarrow> 1 \<le> a \<and> a \<le> length store"

definition create_system ::
  "'tid \<Rightarrow> (address \<Rightarrow> 'tid api_call list) \<Rightarrow> 'tid free_store \<times> 'tid entity_orchestrator
     \<Rightarrow> address \<times> 'tid free_store \<times> 'tid entity_orchestrator" where
  "create_system T ctor st =
     (let (ptr, store') = new_object T (fst st);
          orch' = fold api_step (ctor ptr) (snd st)
      in (ptr, store', add_system T ptr orch'))"

text \<open>Any sequence of public calls on an orchestrator, \<^verbatim>\<open>create_system\<close> included.\<close>

datatype 'tid client_call =
  Call "'tid api_call"
| CreateSystem 'tid "address \<Rightarrow> 'tid api_call list"

fun client_step ::
  "'tid client_call \<Rightarrow> 'tid free_store \<times> 'tid entity_orchestrator
     \<Rightarrow> 'tid free_store \<times> 'tid entity_orchestrator" where
  "client_step (Call c) st = (fst st, api_step c (snd st))"
| "client_step (CreateSystem T ctor) st = snd (create_system T ctor st)"

text \<open>A constructor that makes no call on the orchestrator.\<close>

definition no_calls :: "address \<Rightarrow> 'tid api_call list" where
  "no_calls this = []"

section \<open>Parallel partitioner (gl-particle-system.cpp)\<close>

text \<open>
  Undefined behaviour of the C++ (division by zero, overflow of \<^verbatim>\<open>int\<close>, an index outside a
  vector) is a value of the model.
\<close>

datatype fault = DivisionByZero | SignedOverflow | OutOfBounds

text \<open>\<^verbatim>\<open>int\<close> is 32 bits wide; values are mathematical integers checked against its range.\<close>

definition INT_MIN :: int where
  "INT_MIN = - (2 ^ 31)"

definition INT_MAX :: int where
  "INT_MAX = 2 ^ 31 - 1"

definition in_int :: "int \<Rightarrow> bool" where
  "in_int x \<longleftrightarrow> INT_MIN \<le> x \<and> x \<le> INT_MAX"

text \<open>\<^verbatim>\<open>/\<close> and \<^verbatim>\<open>%\<close> of C++ truncate towards zero.\<close>

definition c_div :: "int \<Rightarrow> int \<Rightarrow> int" where
  "c_div a b = sgn a * sgn b * (\<bar>a\<bar> div \<bar>b\<bar>)"

definition c_mod :: "int \<Rightarrow> int \<Rightarrow> int" where
  "c_mod a b = a - b * c_div a b"

text \<open>
  \<^verbatim>\<open>const int hint = (target_concurrency == 0) ? std::thread::hardware_concurrency() : target_concurrency;\<close>
  The second argument is the value of \<^verbatim>\<open>std::thread::hardware_concurrency()\<close> as an
  \<^verbatim>\<open>int\<close>; it is 0 when the parallelism cannot be detected.
\<close>

definition hint :: "int \<Rightarrow> int \<Rightarrow> int" where
  "hint target_concurrency hardware_concurrency =
     (if target_concurrency = 0 then hardware_concurrency else target_concurrency)"

text \<open>\<^verbatim>\<open>const int n_threads = std::min(n, (hint == 0) ? 4 : hint);\<close>\<close>

definition n_threads :: "int \<Rightarrow> int \<Rightarrow> int \<Rightarrow> int" where
  "n_threads n target_concurrency hardware_concurrency =
     min n (if hint target_concurrency hardware_concurrency = 0 then 4
            else hint target_concurrency hardware_concurrency)"

text \<open>\<^verbatim>\<open>const int n_max_tasks_per_thread = (n / n_threads) + (n % n_threads == 0 ? 0 : 1);\<close>\<close>

definition n_max_tasks_per_thread :: "int \<Rightarrow> int \<Rightarrow> int" where
  "n_max_tasks_per_thread n nt = c_div n nt + (if c_mod n nt = 0 then 0 else 1)"

text \<open>\<^verbatim>\<open>const int n_lacking_tasks = n_max_tasks_per_thread * n_threads - n;\<close>\<close>

definition n_lacking_tasks :: "int \<Rightarrow> int \<Rightarrow> int" where
  "n_lacking_tasks n nt = n_max_tasks_per_thread n nt * nt - n"

text \<open>
  \<^verbatim>\<open>const int n_lacking_tasks_so_far = std::max(thread_index - n_threads + n_lacking_tasks, 0);
  const int inclusive_start_index = thread_index * n_max_tasks_per_thread - n_lacking_tasks_so_far;
  const int exclusive_end_index = inclusive_start_index + n_max_tasks_per_thread
      - (thread_index - n_threads + n_lacking_tasks >= 0 ? 1 : 0);\<close>
\<close>

definition n_lacking_tasks_so_far :: "int \<Rightarrow> int \<Rightarrow> int \<Rightarrow> int" where
  "n_lacking_tasks_so_far n nt thread_index =
     max (thread_index - nt + n_lacking_tasks n nt) 0"

definition inclusive_start_index :: "int \<Rightarrow> int \<Rightarrow> int \<Rightarrow> int" where
  "inclusive_start_index n nt thread_index =
     thread_index * n_max_tasks_per_thread n nt - n_lacking_tasks_so_far n nt thread_index"

definition exclusive_end_index :: "int \<Rightarrow> int \<Rightarrow> int \<Rightarrow> int" where
  "exclusive_end_index n nt thread_index =
     inclusive_start_index n nt thread_index + n_max_tasks_per_thread n nt
       - (if thread_index - nt + n_lacking_tasks n nt \<ge> 0 then 1 else 0)"

text \<open>
  One worker: the arguments \<open>k\<close> it passes to \<^verbatim>\<open>function\<close>, in order
  (\<^verbatim>\<open>for (int k = inclusive_start_index; k < exclusive_end_index; ++k) function(k);\<close>),
  or the fault when an intermediate value leaves the range of \<^verbatim>\<open>int\<close>.
\<close>

definition inner_loop :: "int \<Rightarrow> int \<Rightarrow> int \<Rightarrow> fault + int list" where
  "inner_loop n nt thread_index =
     (if in_int (thread_index - nt) \<and>
         in_int (thread_index - nt + n_lacking_tasks n nt) \<and>
         in_int (thread_index * n_max_tasks_per_thread n nt) \<and>
         in_int (inclusive_start_index n nt thread_index) \<and>
         in_int (inclusive_start_index n nt thread_index + n_max_tasks_per_thread n nt) \<and>
         in_int (exclusive_end_index n nt thread_index)
      then Inr [inclusive_start_index n nt thread_index .. exclusive_end_index n nt thread_index - 1]
      else Inl SignedOverflow)"

text \<open>The results of the workers, or the first fault.\<close>

fun collect :: "(fault + 'a) list \<Rightarrow> fault + 'a list" where
  "collect [] = Inr []"
| "collect (Inl e # rs) = Inl e"
| "collect (Inr x # rs) = (case collect rs of Inl e \<Rightarrow> Inl e | Inr xs \<Rightarrow> Inr (x # xs))"

text \<open>
  \<^verbatim>\<open>for (int j = 0; j < n_threads; ++j) { threads.push_back(std::thread(inner_loop, j)); }
  for (auto & t : threads) { t.join(); }\<close>
  The result lists, for each worker \<open>j\<close> in turn, the indices that worker processes. The
  worker count is computed first; the division faults when it is 0.
\<close>

definition particle_parallel_for :: "int \<Rightarrow> int \<Rightarrow> int \<Rightarrow> fault + int list list" where
  "particle_parallel_for n target_concurrency hardware_concurrency =
     (let nt = n_threads n target_concurrency hardware_concurrency in
      if nt = 0 then Inl DivisionByZero
      else if in_int (c_div n nt) \<and> in_int (n_max_tasks_per_thread n nt) \<and>
              in_int (n_max_tasks_per_thread n nt * nt) \<and> in_int (n_lacking_tasks n nt)
      then collect (map (inner_loop n nt) [0 .. nt - 1])
      else Inl SignedOverflow)"

section \<open>Particle system (gl-particle-system.cpp)\<close>

text \<open>
  The structs \<^verbatim>\<open>particle\<close> and \<^verbatim>\<open>instance_data\<close> are declared in gl-particle-system.hpp,
  which is not part of the sources at hand, and their fields are floating-point vectors.
  They are the type parameters \<open>'p\<close> and \<open>'i\<close>, and the three places where \<^verbatim>\<open>update\<close>
  computes with their fields are parameters too:
  \<^item> \<open>trail_modifier\<close>: \<^verbatim>\<open>position -= velocity * 0.001f; size *= 0.97f;\<close>
  \<^item> \<open>write_instance\<close>: \<^verbatim>\<open>position_size = float4(p.position, p.size); color = float4(p.color);\<close>
  \<^item> \<open>default_instance\<close>: the value-initialised element \<^verbatim>\<open>resize\<close> appends.
  The OpenGL buffers are outside the model.
\<close>

record ('p, 'i) particle_ops =
  trail_modifier :: "'p \<Rightarrow> 'p"
  write_instance :: "'p \<Rightarrow> 'i \<Rightarrow> 'i"
  default_instance :: 'i

text \<open>\<^verbatim>\<open>trail\<close> is a \<^verbatim>\<open>size_t\<close>.\<close>

record ('p, 'i) gl_particle_system =
  particles :: "'p list"
  instances :: "'i list"
  trail :: "64 word"

definition set_trail_count ::
  "64 word \<Rightarrow> ('p, 'i) gl_particle_system \<Rightarrow> ('p, 'i) gl_particle_system" where
  "set_trail_count trail_count s = s\<lparr>trail := trail_count\<rparr>"

text \<open>Both overloads of \<^verbatim>\<open>add\<close> fill in a particle \<open>p\<close> and \<^verbatim>\<open>particles.emplace_back(p)\<close>.\<close>

definition add :: "'p \<Rightarrow> ('p, 'i) gl_particle_system \<Rightarrow> ('p, 'i) gl_particle_system" where
  "add p s = s\<lparr>particles := particles s @ [p]\<rparr>"

definition clear :: "('p, 'i) gl_particle_system \<Rightarrow> ('p, 'i) gl_particle_system" where
  "clear s = s\<lparr>particles := []\<rparr>"

text \<open>
  The body of the loop over \<^verbatim>\<open>trail_idx\<close>, for the remaining values of \<^verbatim>\<open>trail_idx\<close>:
  \<^verbatim>\<open>if (trail_idx >= 1) { particles[trail_idx].position -= ...; particles[trail_idx].size *= 0.97f; }
  instances[i].position_size = float4(particles[i].position, particles[i].size);
  instances[i].color = float4(particles[i].color);\<close>
  \<^verbatim>\<open>operator[]\<close> outside the vector is the fault \<open>OutOfBounds\<close>.
\<close>

fun trail_loop ::
  "('p, 'i) particle_ops \<Rightarrow> nat \<Rightarrow> nat list \<Rightarrow> ('p, 'i) gl_particle_system
     \<Rightarrow> fault + ('p, 'i) gl_particle_system" where
  "trail_loop ops i [] s = Inr s"
| "trail_loop ops i (trail_idx # rest) s =
     (if trail_idx \<ge> 1 \<and> \<not> trail_idx < length (particles s) then Inl OutOfBounds
      else
        let s1 = (if trail_idx \<ge> 1
                  then s\<lparr>particles :=
                         (particles s)[trail_idx := trail_modifier ops (particles s ! trail_idx)]\<rparr>
                  else s)
        in if \<not> i < length (instances s1) \<or> \<not> i < length (particles s1) then Inl OutOfBounds
           else trail_loop ops i rest
                  (s1\<lparr>instances :=
                        (instances s1)[i := write_instance ops (particles s1 ! i) (instances s1 ! i)]\<rparr>))"

text \<open>
  \<^verbatim>\<open>for (int i = 0; i < particles.size(); ++i)
      for (int trail_idx = 0; trail_idx < (trail + 1); ++trail_idx) ...\<close>
  \<^verbatim>\<open>trail + 1\<close> is computed in \<^verbatim>\<open>size_t\<close>.
\<close>

fun simulate ::
  "('p, 'i) particle_ops \<Rightarrow> nat list \<Rightarrow> ('p, 'i) gl_particle_system
     \<Rightarrow> fault + ('p, 'i) gl_particle_system" where
  "simulate ops [] s = Inr s"
| "simulate ops (i # rest) s =
     (case trail_loop ops i [0 ..< unat (trail s + 1)] s of
        Inl e \<Rightarrow> Inl e
      | Inr s' \<Rightarrow> simulate ops rest s')"

text \<open>
  \<^verbatim>\<open>if (particles.size() == 0) return;
  if (!instances.size()) { instances.resize(particles.size()); ... }\<close>
  The argument \<^verbatim>\<open>dt\<close> is not used by the body.
\<close>

definition update ::
  "('p, 'i) particle_ops \<Rightarrow> ('p, 'i) gl_particle_system \<Rightarrow> fault + ('p, 'i) gl_particle_system" where
  "update ops s =
     (if length (particles s) = 0 then Inr s
      else
        let s1 = (if length (instances s) = 0
                  then s\<lparr>instances := replicate (length (particles s)) (default_instance ops)\<rparr>
                  else s)
        in simulate ops [0 ..< length (particles s1)] s1)"

text \<open>
  The worker count as section 4.6 of the specification words it,
  \<open>k = min(n, max(h, 4-if-h-is-0))\<close>, for comparison with \<open>n_threads\<close>.
\<close>

definition spec_worker_count :: "int \<Rightarrow> int \<Rightarrow> int" where
  "spec_worker_count n h = min n (max h (if h = 0 then 4 else 0))"

section \<open>Entity allocation\<close>

text \<open>Only \<^verbatim>\<open>create_entity\<close> changes the counter, by one, whatever else is called between.\<close>

lemma create_entity_simps:
  "fst (create_entity orch) = entity_counter orch + 1"
  "entity_counter (snd (create_entity orch)) = entity_counter orch + 1"
  "systems (snd (create_entity orch)) = systems orch"
  "system_type_map (snd (create_entity orch)) = system_type_map orch"
  by (simp_all add: create_entity_def Let_def)

lemma add_system_fields:
  "entity_counter (add_system t s orch) = entity_counter orch"
  "system_type_map (add_system t s orch) = system_type_map orch"
  by (simp_all add: add_system_def split: option.split)

lemma register_fields:
  "entity_counter (register_system_for_type s c orch) = entity_counter orch"
  "systems (register_system_for_type s c orch) = systems orch"
  by (simp_all add: register_system_for_type_def)

lemma api_step_counter:
  "entity_counter (api_step c orch) =
     entity_counter orch + (if c = CreateEntity then 1 else 0)"
  by (cases c) (simp_all add: create_entity_simps add_system_fields register_fields)

lemma returned_entities_eq:
  "returned_entities cs orch =
     map (\<lambda>i. entity_counter orch + of_nat (Suc i)) [0..<length (filter ((=) CreateEntity) cs)]"
proof (induction cs arbitrary: orch)
  case Nil
  then show ?case by simp
next
  case (Cons c cs)
  show ?case
  proof (cases c)
    case CreateEntity
    have "returned_entities (c # cs) orch =
            (entity_counter orch + 1) # returned_entities cs (snd (create_entity orch))"
      using CreateEntity by (simp add: create_entity_def Let_def)
    also have "returned_entities cs (snd (create_entity orch)) =
        map (\<lambda>i. entity_counter orch + 1 + of_nat (Suc i))
          [0..<length (filter ((=) CreateEntity) cs)]"
      by (simp add: Cons.IH create_entity_simps)
    finally have step: "returned_entities (c # cs) orch =
        (entity_counter orch + 1) # map (\<lambda>i. entity_counter orch + 1 + of_nat (Suc i))
          [0..<length (filter ((=) CreateEntity) cs)]" .
    have "[0..<length (filter ((=) CreateEntity) (c # cs))] =
            0 # map Suc [0..<length (filter ((=) CreateEntity) cs)]"
      using CreateEntity by (simp add: upt_conv_Cons map_Suc_upt del: upt_Suc)
    then show ?thesis
      by (simp add: step o_def add.assoc)
  next
    case (AddSystem t s)
    then show ?thesis by (simp add: Cons.IH add_system_fields)
  next
    case (RegisterSystemForType s c)
    then show ?thesis by (simp add: Cons.IH register_fields)
  qed
qed

lemma unat_counter_add:
  fixes c :: entity
  assumes "unat c + k < 2 ^ 64"
  shows "unat (c + of_nat k) = unat c + k"
  using assms by (simp add: unat_word_ariths unat_of_nat)

lemma returned_entities_sorted:
  assumes "unat (entity_counter orch) + length (filter ((=) CreateEntity) cs) < 2 ^ 64"
  shows "sorted_wrt (<) (returned_entities cs orch)"
proof -
  let ?n = "length (filter ((=) CreateEntity) cs)"
  let ?f = "\<lambda>i. entity_counter orch + of_nat (Suc i)"
  have "?f i < ?f j" if "i < j" "j < ?n" for i j
  proof -
    have "unat (?f i) = unat (entity_counter orch) + Suc i"
      using that assms by (intro unat_counter_add) simp
    moreover have "unat (?f j) = unat (entity_counter orch) + Suc j"
      using that assms by (intro unat_counter_add) simp
    ultimately show ?thesis
      using that by (simp add: word_less_nat_alt)
  qed
  then show ?thesis
    by (simp add: returned_entities_eq sorted_wrt_iff_nth_less)
qed

lemma returned_entities_nonzero:
  assumes "unat (entity_counter orch) + length (filter ((=) CreateEntity) cs) < 2 ^ 64"
  shows "kInvalidEntity \<notin> set (returned_entities cs orch)"
proof
  assume "kInvalidEntity \<in> set (returned_entities cs orch)"
  then obtain i where i: "i < length (filter ((=) CreateEntity) cs)"
    and z: "entity_counter orch + of_nat (Suc i) = 0"
    by (auto simp: returned_entities_eq kInvalidEntity_def)
  have "unat (entity_counter orch + of_nat (Suc i)) = unat (entity_counter orch) + Suc i"
    using i assms by (intro unat_counter_add) simp
  with z show False by simp
qed

lemma returned_entities_example:
  "returned_entities [CreateEntity, AddSystem (1::nat) 5, CreateEntity, CreateEntity]
      orchestrator_init = [1, 2, 3]"
  by (simp add: orchestrator_init_def create_entity_def add_system_def nullptr_def)

lemma returned_entities_last:
  assumes "0 < n"
  shows "last (returned_entities (replicate n CreateEntity) orch) = entity_counter orch + of_nat n"
proof -
  have "length (filter ((=) CreateEntity) (replicate n (CreateEntity :: 'a api_call))) = n"
    by simp
  then have "returned_entities (replicate n CreateEntity) orch =
      map (\<lambda>i. entity_counter orch + of_nat (Suc i)) [0..<n]"
    by (simp only: returned_entities_eq)
  moreover from assms obtain m where "n = Suc m"
    by (cases n) auto
  ultimately show ?thesis
    by (simp del: of_nat_Suc)
qed

text \<open>
  Claim C1, amended. Take any sequence of calls of the non-template member functions on an
  orchestrator whose counter is \<open>c\<close>, with fewer than \<open>2 ^ 64 - c\<close> calls of
  \<^verbatim>\<open>create_entity()\<close> among them (on a fresh orchestrator: fewer than \<open>2 ^ 64\<close>). Then
  the values the \<^verbatim>\<open>create_entity()\<close> calls return are pairwise distinct, none is 0, and the
  values returned to one caller (the calls at the positions \<open>caller\<close> of the call order)
  are strictly increasing.
\<close>

theorem create_entity_unique_monotonic:
  assumes "unat (entity_counter orch) + length (filter ((=) CreateEntity) cs) < 2 ^ 64"
  shows "distinct (returned_entities cs orch) \<and>
         kInvalidEntity \<notin> set (returned_entities cs orch) \<and>
         sorted_wrt (<) (nths (returned_entities cs orch) caller)"
proof -
  have s: "sorted_wrt (<) (returned_entities cs orch)"
    by (rule returned_entities_sorted[OF assms])
  then have "sorted (nths (returned_entities cs orch) caller)"
    and "distinct (nths (returned_entities cs orch) caller)"
    by (simp_all add: strict_sorted_iff sorted_nths)
  then have "sorted_wrt (<) (nths (returned_entities cs orch) caller)"
    by (simp add: strict_sorted_iff)
  then show ?thesis
    using s returned_entities_nonzero[OF assms] by (simp add: strict_sorted_iff)
qed

theorem create_entity_unique_monotonic_witness:
  "distinct (returned_entities [CreateEntity, AddSystem (1::nat) 5, CreateEntity, CreateEntity]
      orchestrator_init) \<and>
   kInvalidEntity \<notin> set (returned_entities [CreateEntity, AddSystem (1::nat) 5, CreateEntity, CreateEntity]
      orchestrator_init) \<and>
   sorted_wrt (<) (nths (returned_entities [CreateEntity, AddSystem (1::nat) 5, CreateEntity, CreateEntity]
      orchestrator_init) {0, 2})"
proof -
  have h: "unat (entity_counter (orchestrator_init :: nat entity_orchestrator)) +
      length (filter ((=) CreateEntity) [CreateEntity, AddSystem (1::nat) 5, CreateEntity, CreateEntity])
        < 2 ^ 64"
    by (simp add: orchestrator_init_def)
  show ?thesis
    by (rule create_entity_unique_monotonic[OF h])
qed

text \<open>
  Claim C1 as stated, for every sequence of calls, fails: the counter is a
  \<^verbatim>\<open>uint64_t\<close>, and the last of \<open>2 ^ 64\<close> calls on a fresh orchestrator returns 0.
\<close>

theorem create_entity_wraps_to_invalid:
  "kInvalidEntity \<in> set (returned_entities (replicate (2 ^ 64) CreateEntity)
     (orchestrator_init :: unit entity_orchestrator))"
proof -
  have pos: "(0::nat) < 2 ^ 64" by simp
  have "last (returned_entities (replicate (2 ^ 64) CreateEntity)
      (orchestrator_init :: unit entity_orchestrator)) = kInvalidEntity"
    using returned_entities_last[OF pos, of "orchestrator_init :: unit entity_orchestrator"]
    by (simp add: orchestrator_init_def kInvalidEntity_def)
  moreover have "returned_entities (replicate (2 ^ 64) CreateEntity)
      (orchestrator_init :: unit entity_orchestrator) \<noteq> []"
    using pos by (simp add: returned_entities_eq)
  ultimately show ?thesis
    using last_in_set by metis
qed

section \<open>System registry\<close>

lemma add_system_registered:
  "systems orch t = Some s0 \<Longrightarrow> add_system t s orch = orch"
  by (simp add: add_system_def)

lemma add_system_other:
  "t' \<noteq> t \<Longrightarrow> systems (add_system t s orch) t' = systems orch t'"
  by (simp add: add_system_def split: option.split)

lemma add_system_fresh:
  "systems orch t = None \<Longrightarrow> s \<noteq> nullptr \<Longrightarrow> systems (add_system t s orch) t = Some s"
  by (simp add: add_system_def)

lemma add_system_null: "add_system t nullptr orch = orch"
  by (simp add: add_system_def)

text \<open>
  Claim C5. \<^verbatim>\<open>add_system(t, s)\<close> changes the entry of \<open>t\<close> only if no instance was
  registered under \<open>t\<close>, and then the entry is \<open>s\<close>; when an instance is registered under
  \<open>t\<close> the call leaves the whole orchestrator unchanged; a second call for the same
  identifier, after a first one that passed an instance, leaves the registry as the first
  call left it, with the instance inserted first still registered. The function has no
  error result.
\<close>

theorem add_system_insert_if_absent:
  "(systems (add_system t s orch) t \<noteq> systems orch t \<longrightarrow>
      systems orch t = None \<and> systems (add_system t s orch) t = Some s) \<and>
   (systems orch t = Some s0 \<longrightarrow> add_system t s orch = orch) \<and>
   (s1 \<noteq> nullptr \<longrightarrow> add_system t s2 (add_system t s1 orch) = add_system t s1 orch) \<and>
   (s1 \<noteq> nullptr \<longrightarrow> systems orch t = None \<longrightarrow>
      systems (add_system t s2 (add_system t s1 orch)) t = Some s1)"
  by (auto simp: add_system_def split: option.splits)

theorem add_system_insert_if_absent_witness:
  "systems (add_system (1::nat) 5 orchestrator_init) 1 \<noteq> systems orchestrator_init 1 \<and>
   systems (add_system (1::nat) 5 orchestrator_init) 1 = Some 5 \<and>
   (5::nat) \<noteq> nullptr \<and> systems (orchestrator_init :: nat entity_orchestrator) 1 = None \<and>
   add_system (1::nat) 7 (add_system 1 5 orchestrator_init) = add_system 1 5 orchestrator_init \<and>
   systems (add_system (1::nat) 7 (add_system 1 5 orchestrator_init)) 1 = Some 5 \<and>
   add_system (1::nat) 9 (add_system 1 5 orchestrator_init) = add_system 1 5 orchestrator_init"
proof -
  have a: "(5::nat) \<noteq> nullptr" by (simp add: nullptr_def)
  have b: "systems (orchestrator_init :: nat entity_orchestrator) 1 = None"
    by (simp add: orchestrator_init_def)
  have c: "systems (add_system (1::nat) 5 orchestrator_init) 1 \<noteq> systems orchestrator_init 1"
    by (simp add: orchestrator_init_def add_system_def nullptr_def)
  note t1 = add_system_insert_if_absent
    [of "1::nat" 5 orchestrator_init 5 5 7]
  have d: "systems (add_system (1::nat) 5 orchestrator_init) 1 = Some 5"
    using t1 c by blast
  note t2 = add_system_insert_if_absent
    [of "1::nat" 9 "add_system 1 5 orchestrator_init" 5 5 7]
  have e: "add_system (1::nat) 9 (add_system 1 5 orchestrator_init) = add_system 1 5 orchestrator_init"
    using t2 d by blast
  have f: "add_system (1::nat) 7 (add_system 1 5 orchestrator_init) = add_system 1 5 orchestrator_init"
    using t1 a by blast
  have g: "systems (add_system (1::nat) 7 (add_system 1 5 orchestrator_init)) 1 = Some 5"
    using t1 a b by blast
  from a b c d e f g show ?thesis by blast
qed

text \<open>
  Claim C6. After \<^verbatim>\<open>register_system_for_type(S, C)\<close> the router maps \<open>C\<close> to \<open>S\<close>; of
  two registrations for the same component type the last one wins; the entries of the other
  component types are untouched; and a component type has at most one owning system type.
\<close>

theorem register_system_for_type_routes:
  "system_type_map (register_system_for_type S C orch) C = Some S \<and>
   system_type_map (register_system_for_type S2 C (register_system_for_type S1 C orch)) C = Some S2 \<and>
   (C' \<noteq> C \<longrightarrow>
      system_type_map (register_system_for_type S C orch) C' = system_type_map orch C') \<and>
   (system_type_map orch C = Some Sa \<and> system_type_map orch C = Some Sb \<longrightarrow> Sa = Sb)"
  by (auto simp: register_system_for_type_def)

theorem register_system_for_type_routes_witness:
  "system_type_map (register_system_for_type (10::nat) 1 orchestrator_init) 1 = Some 10 \<and>
   system_type_map (register_system_for_type (20::nat) 1
      (register_system_for_type 10 1 orchestrator_init)) 1 = Some 20 \<and>
   (2::nat) \<noteq> 1 \<and>
   system_type_map (register_system_for_type (10::nat) 1 orchestrator_init) 2 =
      system_type_map orchestrator_init 2"
  using register_system_for_type_routes
    [of "10::nat" 1 orchestrator_init 20 10 2 10 10]
  by (simp add: )

lemma create_entity_systems: "systems (snd (create_entity orch)) = systems orch"
  by (simp add: create_entity_def Let_def)

lemma register_systems: "systems (register_system_for_type s c orch) = systems orch"
  by (simp add: register_system_for_type_def)

lemma add_system_ran:
  "nullptr \<notin> ran (systems orch) \<Longrightarrow> nullptr \<notin> ran (systems (add_system t s orch))"
  by (auto simp: add_system_def ran_def split: option.splits if_splits)

lemma api_step_ran:
  "nullptr \<notin> ran (systems orch) \<Longrightarrow> nullptr \<notin> ran (systems (api_step c orch))"
  by (cases c) (simp_all add: create_entity_systems register_systems add_system_ran)

lemma fold_api_step_ran:
  "nullptr \<notin> ran (systems orch) \<Longrightarrow> nullptr \<notin> ran (systems (fold api_step cs orch))"
  by (induction cs arbitrary: orch) (simp_all add: api_step_ran)

lemma create_system_unfold:
  "create_system T ctor (store, orch) =
     (Suc (length store), store @ [T],
      add_system T (Suc (length store)) (fold api_step (ctor (Suc (length store))) orch))"
  by (simp add: create_system_def new_object_def)

lemma client_step_ran:
  assumes "nullptr \<notin> ran (systems (snd st))"
  shows "nullptr \<notin> ran (systems (snd (client_step c st)))"
proof (cases c)
  case (Call a)
  then show ?thesis using assms by (simp add: api_step_ran)
next
  case (CreateSystem T ctor)
  then show ?thesis
    using assms
    by (cases st) (simp add: create_system_unfold add_system_ran fold_api_step_ran)
qed

lemma fold_client_step_ran:
  "nullptr \<notin> ran (systems (snd st)) \<Longrightarrow>
     nullptr \<notin> ran (systems (snd (fold client_step cs st)))"
  by (induction cs arbitrary: st) (simp_all add: client_step_ran)

text \<open>
  Claim C9. \<^verbatim>\<open>add_system(t, nullptr)\<close> leaves the orchestrator unchanged, and after any
  sequence of public calls on a fresh orchestrator (\<^verbatim>\<open>create_system\<close> included, with
  constructors that call back into the orchestrator) no registered system is
  \<^verbatim>\<open>nullptr\<close>.
\<close>

theorem add_system_null_ignored:
  fixes orch :: "'tid entity_orchestrator" and store :: "'tid free_store"
  shows "add_system t nullptr orch = orch \<and>
   nullptr \<notin> ran (systems (snd (fold client_step cs (store, orchestrator_init))))"
proof -
  have "nullptr \<notin> ran (systems (snd (store, orchestrator_init)))"
    by (simp add: orchestrator_init_def)
  then have "nullptr \<notin> ran (systems (snd (fold client_step cs (store, orchestrator_init))))"
    by (rule fold_client_step_ran)
  then show ?thesis
    by (simp add: add_system_null)
qed

lemma fold_api_step_systems:
  "\<forall>a. AddSystem T a \<notin> set cs \<Longrightarrow> systems (fold api_step cs orch) T = systems orch T"
proof (induction cs arbitrary: orch)
  case Nil
  then show ?case by simp
next
  case (Cons c cs)
  have "systems (api_step c orch) T = systems orch T"
  proof (cases c)
    case CreateEntity
    then show ?thesis by (simp add: create_entity_systems)
  next
    case (AddSystem t s)
    with Cons.prems have "t \<noteq> T" by auto
    then show ?thesis using AddSystem by (simp add: add_system_other)
  next
    case (RegisterSystemForType s c)
    then show ?thesis by (simp add: register_systems)
  qed
  with Cons show ?case by simp
qed

lemma api_step_keeps_registered:
  "systems orch T = Some q \<Longrightarrow> systems (api_step c orch) T = Some q"
  by (cases c)
     (auto simp: create_entity_systems register_systems add_system_def split: option.splits)

lemma fold_api_step_keeps_registered:
  "systems orch T = Some q \<Longrightarrow> systems (fold api_step cs orch) T = Some q"
  by (induction cs arbitrary: orch) (simp_all add: api_step_keeps_registered)

text \<open>
  Claim C7, amended. \<^verbatim>\<open>create_system<T>(args...)\<close> constructs exactly one new instance of
  \<open>T\<close>, at a fresh address that is not \<^verbatim>\<open>nullptr\<close>, and returns that address. It
  registers the instance under the identifier of \<open>T\<close> when no system is registered under
  it once the constructor has run, in particular when none was registered before the call
  and the constructor adds none. When a system \<open>q\<close> is already registered under the
  identifier, \<open>q\<close> stays registered, and the returned handle is then not the registered
  instance.
\<close>

theorem create_system_registers_if_absent:
  assumes "create_system T ctor (store, orch) = (ptr, store', orch')"
  shows "ptr \<noteq> nullptr \<and> \<not> allocated store ptr \<and> allocated store' ptr \<and>
         store' = store @ [T] \<and> store' ! (ptr - 1) = T \<and>
         (systems (fold api_step (ctor ptr) orch) T = None \<longrightarrow> systems orch' T = Some ptr) \<and>
         (systems orch T = None \<and> (\<forall>a. AddSystem T a \<notin> set (ctor ptr)) \<longrightarrow>
            systems orch' T = Some ptr) \<and>
         (systems orch T = Some q \<longrightarrow> systems orch' T = Some q) \<and>
         (systems orch T = Some q \<and> allocated store q \<longrightarrow> systems orch' T \<noteq> Some ptr)"
proof -
  from assms have p: "ptr = Suc (length store)" and s: "store' = store @ [T]"
    and o: "orch' = add_system T ptr (fold api_step (ctor ptr) orch)"
    by (auto simp: create_system_unfold)
  have 1: "ptr \<noteq> nullptr" "\<not> allocated store ptr" "allocated store' ptr" "store' ! (ptr - 1) = T"
    using p s by (simp_all add: nullptr_def allocated_def)
  have 2: "systems orch' T = Some ptr" if "systems (fold api_step (ctor ptr) orch) T = None"
    using that 1(1) o by (simp add: add_system_fresh)
  have 3: "systems orch' T = Some ptr"
    if "systems orch T = None" "\<forall>a. AddSystem T a \<notin> set (ctor ptr)"
    using that 2 by (simp add: fold_api_step_systems)
  have 4: "systems orch' T = Some q" if "systems orch T = Some q"
  proof -
    from that have "systems (fold api_step (ctor ptr) orch) T = Some q"
      by (rule fold_api_step_keeps_registered)
    then show ?thesis
      using o by (simp add: add_system_registered)
  qed
  have 5: "systems orch' T \<noteq> Some ptr" if "systems orch T = Some q" "allocated store q"
  proof -
    from that(2) 1(2) have "q \<noteq> ptr" by auto
    with 4[OF that(1)] show ?thesis by simp
  qed
  show ?thesis
    using 1 2 3 4 5 s by blast
qed

theorem create_system_registers_if_absent_witness:
  "create_system (7::nat) no_calls ([], orchestrator_init) =
     (1, [7], add_system 7 1 orchestrator_init) \<and>
   systems (orchestrator_init :: nat entity_orchestrator) 7 = None \<and>
   (\<forall>a. AddSystem (7::nat) a \<notin> set (no_calls 1)) \<and>
   systems (add_system (7::nat) 1 orchestrator_init) 7 = Some 1 \<and>
   create_system (7::nat) no_calls ([7], add_system 7 1 orchestrator_init) =
     (2, [7, 7], add_system 7 1 orchestrator_init) \<and>
   allocated [7::nat] 1 \<and>
   systems (add_system (7::nat) 1 orchestrator_init) 7 \<noteq> Some 2"
proof -
  have a: "create_system (7::nat) no_calls ([], orchestrator_init) =
     (1, [7], add_system 7 1 orchestrator_init)"
    by (simp add: create_system_unfold no_calls_def)
  have b: "systems (orchestrator_init :: nat entity_orchestrator) 7 = None"
    by (simp add: orchestrator_init_def)
  have c: "\<forall>a. AddSystem (7::nat) a \<notin> set (no_calls 1)"
    by (simp add: no_calls_def)
  have d: "systems (add_system (7::nat) 1 orchestrator_init) 7 = Some 1"
    using create_system_registers_if_absent[OF a] b c by blast
  have e: "create_system (7::nat) no_calls ([7], add_system 7 1 orchestrator_init) =
     (2, [7, 7], add_system 7 1 orchestrator_init)"
    using d by (simp add: create_system_unfold no_calls_def add_system_registered)
  have f: "allocated [7::nat] 1"
    by (simp add: allocated_def)
  have g: "systems (add_system (7::nat) 1 orchestrator_init) 7 \<noteq> Some 2"
    using create_system_registers_if_absent[OF e, of 1] d f by blast
  from a b c d e f g show ?thesis by blast
qed

text \<open>
  Claim C7 as stated, for every call, fails: the second of two \<^verbatim>\<open>create_system<T>()\<close>
  calls returns the address 2 of an instance that is not registered; the registry keeps the
  instance at address 1.
\<close>

theorem create_system_twice_returns_unregistered:
  "fst (create_system (7::nat) no_calls
          (snd (create_system 7 no_calls ([], orchestrator_init)))) = 2 \<and>
   systems (snd (snd (create_system (7::nat) no_calls
          (snd (create_system 7 no_calls ([], orchestrator_init)))))) 7 = Some 1"
  by (simp add: create_system_unfold no_calls_def orchestrator_init_def add_system_def nullptr_def)

section \<open>Parallel partitioner\<close>

text \<open>
  For \<open>n \<ge> 1\<close> and non-negative hints the worker count \<open>k\<close> satisfies \<open>1 \<le> k \<le> n\<close>;
  then \<open>n_max_tasks_per_thread\<close> is the quotient rounded up and \<open>n_lacking_tasks\<close> is what
  \<open>k\<close> full shares exceed \<open>n\<close> by.
\<close>

lemma n_threads_bounds:
  assumes "1 \<le> n" "0 \<le> h" "0 \<le> hw"
  shows "1 \<le> n_threads n h hw \<and> n_threads n h hw \<le> n"
  using assms by (auto simp: n_threads_def hint_def)

lemma c_div_pos: "0 \<le> a \<Longrightarrow> 0 < b \<Longrightarrow> c_div a b = a div b"
  by (cases "a = 0") (simp_all add: c_div_def)

lemma c_mod_pos: "0 \<le> a \<Longrightarrow> 0 < b \<Longrightarrow> c_mod a b = a mod b"
  by (simp add: c_mod_def c_div_pos minus_mult_div_eq_mod)

lemma n_max_pos:
  assumes "1 \<le> k" "k \<le> n"
  shows "n_max_tasks_per_thread n k = n div k + (if n mod k = 0 then 0 else 1)"
  using assms by (simp add: n_max_tasks_per_thread_def c_div_pos c_mod_pos)

lemma n_max_ge_1:
  assumes "1 \<le> k" "k \<le> n"
  shows "1 \<le> n_max_tasks_per_thread n k"
proof -
  have "0 < n div k"
    using assms pos_imp_zdiv_pos_iff[of k n] by linarith
  then show ?thesis
    using assms by (simp add: n_max_pos)
qed

lemma n_lacking_eq:
  assumes "1 \<le> k" "k \<le> n"
  shows "n_lacking_tasks n k = (if n mod k = 0 then 0 else k - n mod k)"
proof -
  have d: "n div k * k = n - n mod k"
    by (simp add: algebra_simps minus_mod_eq_mult_div)
  have m: "n_max_tasks_per_thread n k = n div k + (if n mod k = 0 then 0 else 1)"
    using assms by (rule n_max_pos)
  show ?thesis
  proof (cases "n mod k = 0")
    case True
    with d m show ?thesis by (simp add: n_lacking_tasks_def)
  next
    case False
    with m have "n_max_tasks_per_thread n k * k = n div k * k + k"
      by (simp add: algebra_simps)
    with d False show ?thesis by (simp add: n_lacking_tasks_def)
  qed
qed

lemma n_lacking_bounds:
  assumes "1 \<le> k" "k \<le> n"
  shows "0 \<le> n_lacking_tasks n k \<and> n_lacking_tasks n k < k"
proof (cases "n mod k = 0")
  case True
  then show ?thesis
    using assms by (simp add: n_lacking_eq)
next
  case False
  have "0 \<le> n mod k" and lt: "n mod k < k"
    using assms by simp_all
  with False have "0 < n mod k"
    by linarith
  moreover have "n_lacking_tasks n k = k - n mod k"
    using assms False by (simp add: n_lacking_eq)
  ultimately show ?thesis
    using lt by linarith
qed

lemma n_max_times:
  "n_max_tasks_per_thread n k * k = n + n_lacking_tasks n k"
  by (simp add: n_lacking_tasks_def)

lemma end_is_next_start:
  "exclusive_end_index n k j = inclusive_start_index n k (j + 1)"
  by (simp add: exclusive_end_index_def inclusive_start_index_def n_lacking_tasks_so_far_def
      algebra_simps max_def)

lemma start_0:
  assumes "1 \<le> k" "k \<le> n"
  shows "inclusive_start_index n k 0 = 0"
  using n_lacking_bounds[OF assms]
  by (simp add: inclusive_start_index_def n_lacking_tasks_so_far_def)

lemma start_k:
  assumes "1 \<le> k" "k \<le> n"
  shows "inclusive_start_index n k k = n"
  using n_lacking_bounds[OF assms] n_max_times[of n k]
  by (simp add: inclusive_start_index_def n_lacking_tasks_so_far_def algebra_simps)

lemma range_size:
  "exclusive_end_index n k j - inclusive_start_index n k j =
     n_max_tasks_per_thread n k - (if k - n_lacking_tasks n k \<le> j then 1 else 0)"
  by (simp add: exclusive_end_index_def)

lemma start_le_end:
  assumes "1 \<le> k" "k \<le> n"
  shows "inclusive_start_index n k j \<le> exclusive_end_index n k j"
  using n_max_ge_1[OF assms] range_size[of n k j] by (simp split: if_splits)

lemma start_mono:
  assumes "1 \<le> k" "k \<le> n" "i \<le> j"
  shows "inclusive_start_index n k i \<le> inclusive_start_index n k j"
  using assms(3)
proof (induction j rule: int_ge_induct)
  case base
  then show ?case by simp
next
  case (step j)
  then show ?case
    using start_le_end[OF assms(1,2), of j] by (simp add: end_is_next_start)
qed


lemma start_range:
  assumes "1 \<le> k" "k \<le> n" "0 \<le> j" "j \<le> k"
  shows "0 \<le> inclusive_start_index n k j \<and> inclusive_start_index n k j \<le> n"
  using start_mono[OF assms(1,2,3)] start_mono[OF assms(1,2,4)]
  by (simp add: start_0[OF assms(1,2)] start_k[OF assms(1,2)])

lemma inner_loop_returns:
  assumes k: "1 \<le> k" "k \<le> n" and fits: "n_max_tasks_per_thread n k * k \<le> INT_MAX"
    and j: "0 \<le> j" "j < k"
  shows "inner_loop n k j =
           Inr [inclusive_start_index n k j .. exclusive_end_index n k j - 1]"
proof -
  let ?m = "n_max_tasks_per_thread n k" and ?L = "n_lacking_tasks n k"
  have L: "0 \<le> ?L" "?L < k"
    using n_lacking_bounds[OF k] by simp_all
  have m: "1 \<le> ?m"
    by (rule n_max_ge_1[OF k])
  have mk: "?m * k = n + ?L"
    by (rule n_max_times)
  have top: "n + ?L \<le> INT_MAX"
    using fits mk by simp
  have jm: "0 \<le> j * ?m" "j * ?m \<le> ?m * k"
  proof -
    show "0 \<le> j * ?m" using j m by simp
    have "j * ?m \<le> k * ?m"
      using j m by (intro mult_right_mono) simp_all
    then show "j * ?m \<le> ?m * k" by (simp add: mult.commute)
  qed
  have s: "0 \<le> inclusive_start_index n k j" "inclusive_start_index n k j \<le> n"
    using start_range[OF k, of j] j by simp_all
  have e: "0 \<le> exclusive_end_index n k j" "exclusive_end_index n k j \<le> n"
    using start_range[OF k, of "j + 1"] j by (simp_all add: end_is_next_start)
  have sm: "inclusive_start_index n k j + ?m =
      exclusive_end_index n k j + (if j - k + ?L \<ge> 0 then 1 else 0)"
    by (simp add: exclusive_end_index_def)
  have 1: "in_int (j - k)"
    using j k L top by (simp add: in_int_def INT_MIN_def INT_MAX_def)
  have 2: "in_int (j - k + ?L)"
    using j k L top by (simp add: in_int_def INT_MIN_def INT_MAX_def)
  have 3: "in_int (j * ?m)"
    using jm mk top by (simp add: in_int_def INT_MIN_def INT_MAX_def)
  have 4: "in_int (inclusive_start_index n k j)"
    using s L top by (simp add: in_int_def INT_MIN_def INT_MAX_def)
  have 5: "in_int (inclusive_start_index n k j + ?m)"
  proof (cases "j - k + ?L \<ge> 0")
    case True
    with j have "1 \<le> ?L" by simp
    with e top True show ?thesis
      by (simp add: sm in_int_def INT_MIN_def INT_MAX_def)
  next
    case False
    with e top L show ?thesis
      by (simp add: sm in_int_def INT_MIN_def INT_MAX_def)
  qed
  have 6: "in_int (exclusive_end_index n k j)"
    using e L top by (simp add: in_int_def INT_MIN_def INT_MAX_def)
  show ?thesis
    using 1 2 3 4 5 6 by (simp add: inner_loop_def)
qed

lemma collect_all_Inr:
  "(\<And>x. x \<in> set xs \<Longrightarrow> f x = Inr (g x)) \<Longrightarrow> collect (map f xs) = Inr (map g xs)"
  by (induction xs) simp_all

lemma upto_append:
  fixes a b c :: int
  assumes "a \<le> b" "b \<le> c + 1"
  shows "[a .. b - 1] @ [b .. c] = [a .. c]"
proof (cases "b \<le> c")
  case True
  then show ?thesis
    using assms upto_split1[of a b c] by simp
next
  case False
  with assms have "b = c + 1" by simp
  then show ?thesis by simp
qed

lemma concat_ranges:
  assumes k: "1 \<le> k" "k \<le> n" and j: "0 \<le> j"
  shows "j \<le> k \<Longrightarrow>
     concat (map (\<lambda>i. [inclusive_start_index n k i .. exclusive_end_index n k i - 1]) [0 .. j - 1])
       = [0 .. inclusive_start_index n k j - 1]"
  using j
proof (induction j rule: int_ge_induct)
  case base
  then show ?case
    by (simp add: start_0[OF k])
next
  case (step j)
  have "[0 .. j + 1 - 1] = [0 .. j - 1] @ [j]"
    using step.hyps upto_rec2[of 0 j] by simp
  moreover have "0 \<le> inclusive_start_index n k j"
    using start_range[OF k, of j] step by simp
  moreover have "inclusive_start_index n k j \<le> inclusive_start_index n k (j + 1)"
    using start_mono[OF k, of j "j + 1"] by simp
  ultimately show ?case
    using step upto_append[of 0 "inclusive_start_index n k j" "inclusive_start_index n k (j + 1) - 1"]
    by (simp add: end_is_next_start)
qed

lemma partition_result:
  assumes k: "1 \<le> k" "k \<le> n" and fits: "n_max_tasks_per_thread n k * k \<le> INT_MAX"
  shows "collect (map (inner_loop n k) [0 .. k - 1]) =
     Inr (map (\<lambda>i. [inclusive_start_index n k i .. exclusive_end_index n k i - 1]) [0 .. k - 1])"
  by (rule collect_all_Inr) (simp add: inner_loop_returns[OF k fits])

lemma partition_top_fits:
  assumes k: "1 \<le> k" "k \<le> n" and fits: "n_max_tasks_per_thread n k * k \<le> INT_MAX"
  shows "in_int (c_div n k) \<and> in_int (n_max_tasks_per_thread n k) \<and>
         in_int (n_max_tasks_per_thread n k * k) \<and> in_int (n_lacking_tasks n k)"
proof -
  let ?m = "n_max_tasks_per_thread n k" and ?L = "n_lacking_tasks n k"
  have L: "0 \<le> ?L" "?L < k"
    using n_lacking_bounds[OF k] by simp_all
  have m: "1 \<le> ?m"
    by (rule n_max_ge_1[OF k])
  have mk: "?m * k = n + ?L"
    by (rule n_max_times)
  have top: "n + ?L \<le> INT_MAX"
    using fits mk by simp
  have "?m * 1 \<le> ?m * k"
    using m k by (intro mult_left_mono) simp_all
  then have "?m \<le> n + ?L"
    using mk by simp
  then have 2: "in_int ?m"
    using m top by (simp add: in_int_def INT_MIN_def INT_MAX_def)
  have "0 \<le> n div k" "n div k \<le> n"
    using k by (simp_all add: pos_imp_zdiv_nonneg_iff int_div_le_self)
  then have 1: "in_int (c_div n k)"
    using k L top by (simp add: c_div_pos in_int_def INT_MIN_def INT_MAX_def)
  have 3: "in_int (?m * k)"
    using mk top k L by (simp add: in_int_def INT_MIN_def INT_MAX_def)
  have 4: "in_int ?L"
    using top k L by (simp add: in_int_def INT_MIN_def INT_MAX_def)
  show ?thesis using 1 2 3 4 by simp
qed


lemma small_workload_fits:
  assumes k: "1 \<le> k" "k \<le> n" and n: "n \<le> 2 ^ 30"
  shows "n_max_tasks_per_thread n k * k \<le> INT_MAX"
proof -
  have "n_lacking_tasks n k < k"
    using n_lacking_bounds[OF k] by simp
  then have "n + n_lacking_tasks n k \<le> 2 ^ 30 + 2 ^ 30 - 1"
    using k n by linarith
  then show ?thesis
    by (simp add: n_max_times INT_MAX_def)
qed

lemma partition_covers:
  assumes "1 \<le> n" "0 \<le> h" "0 \<le> hw"
    and fits: "n_max_tasks_per_thread n (n_threads n h hw) * n_threads n h hw \<le> INT_MAX"
  shows "\<exists>rs. particle_parallel_for n h hw = Inr rs \<and>
           int (length rs) = n_threads n h hw \<and> concat rs = [0 .. n - 1]"
proof -
  let ?k = "n_threads n h hw"
  have k: "1 \<le> ?k" "?k \<le> n"
    using n_threads_bounds[OF assms(1,2,3)] by simp_all
  let ?rs = "map (\<lambda>i. [inclusive_start_index n ?k i .. exclusive_end_index n ?k i - 1]) [0 .. ?k - 1]"
  have "particle_parallel_for n h hw = collect (map (inner_loop n ?k) [0 .. ?k - 1])"
    using k partition_top_fits[OF k fits] by (simp add: particle_parallel_for_def Let_def)
  then have "particle_parallel_for n h hw = Inr ?rs"
    by (simp add: partition_result[OF k fits])
  moreover have "int (length ?rs) = ?k"
    using k by simp
  moreover have "concat ?rs = [0 .. n - 1]"
    using concat_ranges[OF k, of ?k] k by (simp add: start_k[OF k])
  ultimately show ?thesis by blast
qed

text \<open>
  Claim C2. The claim includes the workload \<open>n = 0\<close>. There the worker count is
  \<open>min(0, ...) = 0\<close> for every hint \<open>h \<ge> 0\<close>, and \<^verbatim>\<open>n / n_threads\<close> divides by zero,
  so no range is produced at all. (For \<open>n \<ge> 1\<close> the ranges do cover \<open>[0, n)\<close> exactly
  once whenever the product \<^verbatim>\<open>n_max_tasks_per_thread * n_threads\<close> fits an \<^verbatim>\<open>int\<close>, as it
  does for \<open>n \<le> 2 ^ 30\<close>: \<open>partition_covers\<close>, \<open>small_workload_fits\<close>.)
\<close>

theorem partition_of_empty_workload_faults:
  assumes "0 \<le> h" "0 \<le> hw"
  shows "particle_parallel_for 0 h hw = Inl DivisionByZero"
proof -
  have "n_threads 0 h hw = 0"
    using assms by (simp add: n_threads_def hint_def)
  then show ?thesis
    by (simp add: particle_parallel_for_def)
qed

theorem partition_of_empty_workload_faults_witness:
  "(0::int) \<le> 3 \<and> (0::int) \<le> 8 \<and> particle_parallel_for 0 3 8 = Inl DivisionByZero"
proof -
  have a: "(0::int) \<le> 3" and b: "(0::int) \<le> 8" by simp_all
  from partition_of_empty_workload_faults[OF a b] a b show ?thesis by simp
qed

text \<open>
  Claim C3, amended. When \<open>n \<ge> 1\<close> is not a multiple of the worker count \<open>k\<close>
  (non-negative hints, and the product \<^verbatim>\<open>n_max_tasks_per_thread * n_threads\<close> the code
  computes fits an \<^verbatim>\<open>int\<close>, as it does for \<open>n \<le> 2 ^ 30\<close>), the first \<open>n mod k\<close> workers
  receive \<open>n div k + 1\<close> elements and all later workers receive \<open>n div k\<close>: the workers
  with one element fewer are the latest-indexed ones.
\<close>

theorem shortfall_on_last_workers:
  assumes "1 \<le> n" "0 \<le> h" "0 \<le> hw"
    and fits: "n_max_tasks_per_thread n (n_threads n h hw) * n_threads n h hw \<le> INT_MAX"
    and rem: "n mod n_threads n h hw \<noteq> 0"
  shows "\<exists>rs. particle_parallel_for n h hw = Inr rs \<and>
           int (length rs) = n_threads n h hw \<and>
           (\<forall>j < length rs. int (length (rs ! j)) =
              (if int j < n mod n_threads n h hw then n div n_threads n h hw + 1
               else n div n_threads n h hw))"
proof -
  let ?k = "n_threads n h hw"
  have k: "1 \<le> ?k" "?k \<le> n"
    using n_threads_bounds[OF assms(1,2,3)] by simp_all
  let ?f = "\<lambda>i. [inclusive_start_index n ?k i .. exclusive_end_index n ?k i - 1]"
  let ?rs = "map ?f [0 .. ?k - 1]"
  have "particle_parallel_for n h hw = collect (map (inner_loop n ?k) [0 .. ?k - 1])"
    using k partition_top_fits[OF k fits] by (simp add: particle_parallel_for_def Let_def)
  then have r: "particle_parallel_for n h hw = Inr ?rs"
    by (simp add: partition_result[OF k fits])
  have len: "int (length ?rs) = ?k"
    using k by simp
  have m: "n_max_tasks_per_thread n ?k = n div ?k + 1"
    using rem by (simp add: n_max_pos[OF k])
  have L: "n_lacking_tasks n ?k = ?k - n mod ?k"
    using rem by (simp add: n_lacking_eq[OF k])
  have "int (length (?rs ! j)) =
          (if int j < n mod ?k then n div ?k + 1 else n div ?k)" if "j < length ?rs" for j
  proof -
    from that len have j: "int j < ?k" by simp
    then have "[0 .. ?k - 1] ! j = int j"
      using nth_upto[of 0 j "?k - 1"] by simp
    with j have "?rs ! j = ?f (int j)"
      by simp
    moreover have "int (length (?f (int j))) =
        exclusive_end_index n ?k (int j) - inclusive_start_index n ?k (int j)"
      using start_le_end[OF k, of "int j"] by simp
    ultimately show ?thesis
      by (simp add: range_size m L)
  qed
  with r len show ?thesis by blast
qed

theorem shortfall_on_last_workers_witness:
  "\<exists>rs. particle_parallel_for 5 3 0 = Inr rs \<and>
           int (length rs) = n_threads 5 3 0 \<and>
           (\<forall>j < length rs. int (length (rs ! j)) =
              (if int j < 5 mod n_threads 5 3 0 then 5 div n_threads 5 3 0 + 1
               else 5 div n_threads 5 3 0))"
proof -
  have k: "n_threads 5 3 0 = 3"
    by (simp add: n_threads_def hint_def)
  have a: "(1::int) \<le> 5" "(0::int) \<le> 3" "(0::int) \<le> 0"
    by simp_all
  have b: "n_max_tasks_per_thread 5 (n_threads 5 3 0) * n_threads 5 3 0 \<le> INT_MAX"
    by (simp add: k n_max_tasks_per_thread_def c_div_def c_mod_def INT_MAX_def)
  have c: "5 mod n_threads 5 3 0 \<noteq> 0"
    by (simp add: k)
  show ?thesis
    by (rule shortfall_on_last_workers[OF a b c])
qed

text \<open>
  Claim C3 as stated fails: for \<open>n = 5\<close> and three workers, the earliest workers 0 and 1
  receive two elements each and the last worker receives one.
\<close>

theorem shortfall_not_on_earliest_workers:
  "particle_parallel_for 5 3 0 = Inr [[0, 1], [2, 3], [4]]"
  by code_simp

text \<open>
  Claim C4, amended. The worker count is \<open>min(n, h)\<close> when \<open>h > 0\<close> and \<open>min(n, p')\<close>
  when \<open>h = 0\<close>, where \<open>p'\<close> is the hardware parallelism \<open>p\<close> with 4 substituted when it
  is 0. This is the formula of the specification applied to the effective hint (\<open>h\<close>, or
  \<open>p\<close> when \<open>h = 0\<close>), not to \<open>h\<close> itself.
\<close>

theorem n_threads_formula:
  "(0 < h \<longrightarrow> n_threads n h p = min n h) \<and>
   (h = 0 \<longrightarrow> n_threads n h p = min n (if p = 0 then 4 else p)) \<and>
   (0 \<le> h \<and> 0 \<le> p \<longrightarrow> n_threads n h p = spec_worker_count n (hint h p))"
  by (auto simp: n_threads_def hint_def spec_worker_count_def)

theorem n_threads_formula_witness:
  "(0::int) < 3 \<and> n_threads 10 3 8 = min 10 3 \<and>
   n_threads 100 0 8 = min 100 (if (8::int) = 0 then 4 else 8) \<and>
   (0::int) \<le> 0 \<and> (0::int) \<le> 8 \<and> n_threads 100 0 8 = spec_worker_count 100 (hint 0 8)"
  using n_threads_formula[of 3 10 8] n_threads_formula[of 0 100 8]
  by simp

text \<open>
  Claim C4 as stated fails: the two descriptions it calls equivalent differ. For
  \<open>n = 100\<close>, \<open>h = 0\<close> and 8 hardware threads the worker count is 8, and the formula of
  the specification gives 4.
\<close>

theorem n_threads_not_spec_formula:
  "n_threads 100 0 8 = 8 \<and> spec_worker_count 100 0 = 4"
  by (simp add: n_threads_def hint_def spec_worker_count_def)

section \<open>Particle system\<close>

text \<open>
  Claim C10. The claim asks every access of \<^verbatim>\<open>update\<close> to be within bounds. The code
  sizes \<^verbatim>\<open>instances\<close> only while it is empty: after \<^verbatim>\<open>add(p); update(dt); add(q);\<close>
  a second \<^verbatim>\<open>update(dt)\<close> writes \<^verbatim>\<open>instances[1]\<close> in a vector of size 1. And with a trail
  count of 1 and one particle, \<^verbatim>\<open>update\<close> reads \<^verbatim>\<open>particles[1]\<close>.
\<close>

theorem update_out_of_bounds:
  "update ops (add p \<lparr>particles = [], instances = [], trail = 0\<rparr>) =
     Inr \<lparr>particles = [p], instances = [write_instance ops p (default_instance ops)], trail = 0\<rparr> \<and>
   update ops (add q
       \<lparr>particles = [p], instances = [write_instance ops p (default_instance ops)], trail = 0\<rparr>) =
     Inl OutOfBounds \<and>
   update ops (add p \<lparr>particles = [], instances = [], trail = 1\<rparr>) = Inl OutOfBounds"
proof -
  have u1: "[0 ..< Suc 0] = [0]" and u2: "[0 ..< Suc (Suc 0)] = [0, Suc 0]"
    by (simp_all add: upt_rec)
  have u3: "[0 ..< 2] = [0, Suc 0]"
    by (simp add: upt_rec)
  show ?thesis
    by (simp add: update_def add_def u1 u2 u3 del: upt_Suc)
qed

end
